theory Spec2Isabelle
  imports Main "HOL-Library.Word" "HOL-Library.Multiset"
begin

section \<open>Values shared by the whole model\<close>

text \<open>
  The program is one Python file, \<^verbatim>\<open>bilibili.py\<close>. A byte of a fragment file is an
  8-bit word. A Python \<^verbatim>\<open>str\<close> is a list of Unicode code points, so that \<open>length\<close>
  counts what Python's \<^verbatim>\<open>len\<close> and the slice \<^verbatim>\<open>[:150]\<close> count; \<open>py\<close> turns an ASCII
  literal into such a list.
\<close>

type_synonym byte = "8 word"


text \<open>
  The exceptions the modelled code can meet. All of them are subclasses of
  \<^verbatim>\<open>Exception\<close>, which is what every handler of the program catches. \<open>CallbackError\<close>
  stands for whatever a log callback raises.
\<close>

datatype exn = OSError | IndexError | TypeError | KeyError | AttributeError | CallbackError

datatype level = Info | Warning | Success | Error

section \<open>Repairing a fragment: \<^verbatim>\<open>decode_bilibili_m4s\<close>\<close>

subsection \<open>The two files\<close>

text \<open>
  What the input file hands out is a list of events. \<open>Chunk c\<close> is a run of bytes that
  is available to the next \<^verbatim>\<open>fin.read\<close>; \<open>Chunk []\<close> is a read that returns
  \<^verbatim>\<open>b''\<close>, which the loop takes for the end of the file; \<open>Broken\<close> is a read that raises.
  A regular file that nobody touches is the single event \<open>Chunk content\<close>: every read
  but the last returns as many bytes as were asked for. A file that is still being
  written, or a pipe, can return a short chunk and more bytes later, which is a list of
  several chunks.
\<close>

datatype event = Chunk "byte list" | Broken

fun fin_read :: "nat \<Rightarrow> event list \<Rightarrow> (byte list \<times> event list) option" where
  "fin_read n [] = Some ([], [])"
| "fin_read n (Broken # es) = None"
| "fin_read n (Chunk c # es) =
     (if length c \<le> n then Some (c, es) else Some (take n c, Chunk (drop n c) # es))"

text \<open>
  The environment of one call: whether the two \<^verbatim>\<open>open\<close> calls succeed, what the input
  delivers, which writes succeed (a function of the bytes already written and the bytes
  to write), and whether leaving the \<^verbatim>\<open>with\<close> block, which closes both files, succeeds.
\<close>

record decode_io =
  open_in :: bool
  open_out :: bool
  source :: "event list"
  write_ok :: "byte list \<Rightarrow> byte list \<Rightarrow> bool"
  close_ok :: bool

definition fout_write :: "(byte list \<Rightarrow> byte list \<Rightarrow> bool) \<Rightarrow> byte list \<Rightarrow> byte list \<Rightarrow> byte list option" where
  "fout_write wok out data = (if wok out data then Some (out @ data) else None)"

subsection \<open>The log\<close>

text \<open>
  The messages are Chinese sentences in the source; the model keeps which message it is
  and the level it is logged at. Each is sent only \<^verbatim>\<open>if log_callback\<close>. \<open>emit\<close> is
  the call of a callback that returns, \<open>cb\<close> saying whether there is one; a callback
  that can raise is modelled further down, by \<open>call\<close>.
\<close>

datatype msg =
    DecodeStart | HeaderTooShort | Byte3TooShort | Iso5Missing | Iso5Found | Iso5TooShort
  | DecodeDone | DecodeFailed

type_synonym log = "(msg \<times> level) list"

definition emit :: "bool \<Rightarrow> msg \<Rightarrow> level \<Rightarrow> log \<Rightarrow> log" where
  "emit cb m l lg = (if cb then lg @ [(m, l)] else lg)"

subsection \<open>Indexing a bytearray\<close>

text \<open>Reading or assigning \<^verbatim>\<open>data[i]\<close> beyond the end raises \<^verbatim>\<open>IndexError\<close>.\<close>

definition getitem :: "byte list \<Rightarrow> nat \<Rightarrow> exn + byte" where
  "getitem data i = (if i < length data then Inr (data ! i) else Inl IndexError)"

definition setitem :: "byte list \<Rightarrow> nat \<Rightarrow> byte \<Rightarrow> exn + byte list" where
  "setitem data i v = (if i < length data then Inr (data[i := v]) else Inl IndexError)"

text \<open>
  Line 101: \<^verbatim>\<open>data[16] == 0x69 and data[17] == 0x73 and data[18] == 0x6f and data[19] == 0x35\<close>,
  evaluated from the left and stopping at the first comparison that fails.
\<close>

definition is_iso5 :: "byte list \<Rightarrow> exn + bool" where
  "is_iso5 data =
     (case getitem data 16 of Inl e \<Rightarrow> Inl e | Inr a \<Rightarrow>
        if a \<noteq> 0x69 then Inr False else
     (case getitem data 17 of Inl e \<Rightarrow> Inl e | Inr b \<Rightarrow>
        if b \<noteq> 0x73 then Inr False else
     (case getitem data 18 of Inl e \<Rightarrow> Inl e | Inr c \<Rightarrow>
        if c \<noteq> 0x6f then Inr False else
     (case getitem data 19 of Inl e \<Rightarrow> Inl e | Inr d \<Rightarrow>
        Inr (d = 0x35)))))"

subsection \<open>The steps on the header\<close>

text \<open>Lines 93 to 97: the byte at index 3 becomes \<open>0x20\<close>.\<close>

definition patch_byte3 :: "bool \<Rightarrow> byte list \<Rightarrow> log \<Rightarrow> exn + (byte list \<times> log)" where
  "patch_byte3 cb data lg =
     (if length data > 3
      then (case setitem data 3 0x20 of Inl e \<Rightarrow> Inl e | Inr d \<Rightarrow> Inr (d, lg))
      else Inr (data, emit cb Byte3TooShort Warning lg))"

text \<open>Lines 99 to 107: \<^verbatim>\<open>del data[16:20]\<close> unless the brand is there.\<close>

definition check_iso5 :: "bool \<Rightarrow> byte list \<Rightarrow> log \<Rightarrow> exn + (byte list \<times> log)" where
  "check_iso5 cb data lg =
     (if length data \<ge> 20
      then (case is_iso5 data of
              Inl e \<Rightarrow> Inl e
            | Inr found \<Rightarrow>
                if \<not> found
                then Inr (take 16 data @ drop 20 data, emit cb Iso5Missing Info lg)
                else Inr (data, emit cb Iso5Found Info lg))
      else if length data > 16
      then Inr (data, emit cb Iso5TooShort Warning lg)
      else Inr (data, lg))"

subsection \<open>The loop\<close>

text \<open>
  Lines 111 to 115: the iterations of the \<^verbatim>\<open>while True\<close> loop that run with
  \<^verbatim>\<open>first_chunk_processed\<close> set. The result is the exception that ended the loop, if
  any, and the bytes written.
\<close>

fun weight :: "event list \<Rightarrow> nat" where
  "weight [] = 0"
| "weight (Broken # es) = Suc (weight es)"
| "weight (Chunk c # es) = Suc (length c + weight es)"

lemma read_weight:
  "fin_read n src = Some (buffer, src') \<Longrightarrow> buffer \<noteq> [] \<Longrightarrow> 0 < n \<Longrightarrow> weight src' < weight src"
  by (induction n src rule: fin_read.induct) (auto split: if_splits)

function copy_rest :: "(byte list \<Rightarrow> byte list \<Rightarrow> bool) \<Rightarrow> event list \<Rightarrow> byte list \<Rightarrow> exn option \<times> byte list" where
  "copy_rest wok src out =
     (case fin_read 4096 src of
        None \<Rightarrow> (Some OSError, out)
      | Some (buffer, src') \<Rightarrow>
          if buffer = [] then (None, out)
          else (case fout_write wok out buffer of
                  None \<Rightarrow> (Some OSError, out)
                | Some out' \<Rightarrow> copy_rest wok src' out'))"
  by pat_completeness auto
termination
  by (relation "measure (\<lambda>(wok, src, out). weight src)") (auto dest: read_weight)

declare copy_rest.simps [simp del]

text \<open>
  Lines 93 to 110, followed by the rest of the loop: \<open>data\<close> goes through the two
  header steps and is written, \<^verbatim>\<open>first_chunk_processed\<close> is set, and every later
  iteration copies.
\<close>

definition header_and_rest ::
  "bool \<Rightarrow> (byte list \<Rightarrow> byte list \<Rightarrow> bool) \<Rightarrow> byte list \<Rightarrow> event list \<Rightarrow> byte list \<Rightarrow> log
     \<Rightarrow> exn option \<times> byte list \<times> log" where
  "header_and_rest cb wok data src out lg =
     (case patch_byte3 cb data lg of
        Inl e \<Rightarrow> (Some e, out, lg)
      | Inr (d2, lg2) \<Rightarrow>
     (case check_iso5 cb d2 lg2 of
        Inl e \<Rightarrow> (Some e, out, lg2)
      | Inr (d3, lg3) \<Rightarrow>
     (case fout_write wok out d3 of
        None \<Rightarrow> (Some OSError, out, lg3)
      | Some out' \<Rightarrow>
     (case copy_rest wok src out' of (r, out'') \<Rightarrow> (r, out'', lg3)))))"

text \<open>
  Lines 74 to 115, the whole loop. Its first iteration reads up to 1024 bytes. A chunk
  of 9 bytes or more loses its first 9 bytes. A shorter one is written as it is, and
  the iteration goes on with the next read of up to 4096 bytes in \<open>data\<close>.
\<close>

definition decode_loop ::
  "bool \<Rightarrow> (byte list \<Rightarrow> byte list \<Rightarrow> bool) \<Rightarrow> event list \<Rightarrow> log \<Rightarrow> exn option \<times> byte list \<times> log" where
  "decode_loop cb wok src lg =
     (case fin_read 1024 src of
        None \<Rightarrow> (Some OSError, [], lg)
      | Some (buffer, src1) \<Rightarrow>
          if buffer = [] then (None, [], lg)
          else if length buffer \<ge> 9
          then header_and_rest cb wok (drop 9 buffer) src1 [] lg
          else (let lg1 = emit cb HeaderTooShort Warning lg in
                case fout_write wok [] buffer of
                  None \<Rightarrow> (Some OSError, [], lg1)
                | Some out1 \<Rightarrow>
                (case fin_read 4096 src1 of
                   None \<Rightarrow> (Some OSError, out1, lg1)
                 | Some (buffer2, src2) \<Rightarrow>
                     if buffer2 = [] then (None, out1, lg1)
                     else header_and_rest cb wok buffer2 src2 out1 lg1)))"

text \<open>
  The body of the \<^verbatim>\<open>try\<close>, lines 72 to 117: the exception it ends with, if any, the
  bytes written to the output file and the log.
\<close>

definition decode_try :: "decode_io \<Rightarrow> bool \<Rightarrow> exn option \<times> byte list \<times> log" where
  "decode_try io cb =
     (let lg0 = emit cb DecodeStart Info [] in
      if \<not> open_in io then (Some OSError, [], lg0)
      else if \<not> open_out io then (Some OSError, [], lg0)
      else (case decode_loop cb (write_ok io) (source io) lg0 of
              (Some e, out, lg) \<Rightarrow> (Some e, out, lg)
            | (None, out, lg) \<Rightarrow>
                if close_ok io then (None, out, emit cb DecodeDone Success lg)
                else (Some OSError, out, lg)))"

text \<open>
  The function: \<^verbatim>\<open>True\<close> when the body ran to its end, \<^verbatim>\<open>False\<close> from the handler of
  line 118, which catches every \<^verbatim>\<open>Exception\<close>.
\<close>

definition decode_bilibili_m4s :: "decode_io \<Rightarrow> bool \<Rightarrow> bool \<times> byte list \<times> log" where
  "decode_bilibili_m4s io cb =
     (case decode_try io cb of
        (None, out, lg) \<Rightarrow> (True, out, lg)
      | (Some e, out, lg) \<Rightarrow> (False, out, emit cb DecodeFailed Error lg))"

text \<open>
  What a caller can say about the environment without running the function: every
  operation on the two files succeeds.
\<close>

definition io_sound :: "decode_io \<Rightarrow> bool" where
  "io_sound io \<longleftrightarrow>
     open_in io \<and> open_out io \<and> close_ok io \<and> Broken \<notin> set (source io)
     \<and> (\<forall>out data. write_ok io out data)"

text \<open>The bytes of the input up to the first read that returns nothing.\<close>

fun stream_bytes :: "event list \<Rightarrow> byte list" where
  "stream_bytes [] = []"
| "stream_bytes (Broken # es) = []"
| "stream_bytes (Chunk c # es) = (if c = [] then [] else c @ stream_bytes es)"

definition regular_file :: "byte list \<Rightarrow> decode_io" where
  "regular_file content =
     \<lparr>open_in = True, open_out = True, source = [Chunk content],
      write_ok = (\<lambda>out data. True), close_ok = True\<rparr>"

definition iso5 :: "byte list" where
  "iso5 = [0x69, 0x73, 0x6f, 0x35]"

subsection \<open>Reading the result\<close>

definition returned :: "bool \<times> byte list \<times> log \<Rightarrow> bool" where
  "returned r = fst r"
definition written :: "bool \<times> byte list \<times> log \<Rightarrow> byte list" where
  "written r = fst (snd r)"
definition logged :: "bool \<times> byte list \<times> log \<Rightarrow> log" where
  "logged r = snd (snd r)"

text \<open>
  What the two header steps make of \<open>data\<close> when nothing raises, written without
  the log and the exceptions: the yardstick the steps of the code are compared with.
\<close>

definition repaired_header :: "byte list \<Rightarrow> byte list" where
  "repaired_header data =
     (let d = (if length data > 3 then data[3 := 0x20] else data)
      in if length d \<ge> 20 \<and> take 4 (drop 16 d) \<noteq> iso5 then take 16 d @ drop 20 d else d)"

subsection \<open>Inputs used as examples\<close>

text \<open>
  A file of 20 zero bytes, and a file that has 5 bytes at the first read and 24 more at
  the second, as a file does that is appended to while it is read.
\<close>

definition zeros20 :: "byte list" where
  "zeros20 = [0,0,0,0,0, 0,0,0,0,0, 0,0,0,0,0, 0,0,0,0,0]"

definition growing_file :: decode_io where
  "growing_file =
     \<lparr>open_in = True, open_out = True,
      source = [Chunk [1,2,3,4,5], Chunk (zeros20 @ [7,7,7,7])],
      write_ok = (\<lambda>out data. True), close_ok = True\<rparr>"

subsection \<open>A log callback that can raise\<close>

text \<open>
  \<^verbatim>\<open>log_callback\<close> is a callable of the caller's, \<^verbatim>\<open>self.add_log\<close> at the only call
  site, and a call of it can raise. The definitions above are the function with a
  callback that returns from every call, or with none (\<open>cb\<close> says which). The ones
  below are the same lines of the source with any callback: \<open>None\<close> is no callback,
  \<open>Some f\<close> one that returns from the call with message \<open>m\<close> at level \<open>l\<close>, after the
  calls \<open>lg\<close>, when \<open>f lg m l\<close> holds and raises otherwise. An exception raised in
  the \<^verbatim>\<open>try\<close> goes to the handler of line 118, which calls the callback again
  (line 119) with nothing around it, so an exception raised there leaves the function.
\<close>

type_synonym callback = "(log \<Rightarrow> msg \<Rightarrow> level \<Rightarrow> bool) option"

text \<open>\<^verbatim>\<open>if log_callback: log_callback(m, l)\<close>.\<close>

definition call :: "callback \<Rightarrow> msg \<Rightarrow> level \<Rightarrow> log \<Rightarrow> exn + log" where
  "call k m l lg =
     (case k of
        None \<Rightarrow> Inr lg
      | Some f \<Rightarrow> if f lg m l then Inr (lg @ [(m, l)]) else Inl CallbackError)"

definition callback_returns :: "callback \<Rightarrow> bool" where
  "callback_returns k \<longleftrightarrow> (case k of None \<Rightarrow> True | Some f \<Rightarrow> \<forall>lg m l. f lg m l)"

definition supplied :: "callback \<Rightarrow> bool" where
  "supplied k \<longleftrightarrow> k \<noteq> None"

datatype outcome = Returns bool | Raises exn

text \<open>Lines 93 to 97 and 99 to 107.\<close>

definition patch_byte3_cb :: "callback \<Rightarrow> byte list \<Rightarrow> log \<Rightarrow> exn + (byte list \<times> log)" where
  "patch_byte3_cb k data lg =
     (if length data > 3
      then (case setitem data 3 0x20 of Inl e \<Rightarrow> Inl e | Inr d \<Rightarrow> Inr (d, lg))
      else (case call k Byte3TooShort Warning lg of
              Inl e \<Rightarrow> Inl e
            | Inr lg' \<Rightarrow> Inr (data, lg')))"

definition check_iso5_cb :: "callback \<Rightarrow> byte list \<Rightarrow> log \<Rightarrow> exn + (byte list \<times> log)" where
  "check_iso5_cb k data lg =
     (if length data \<ge> 20
      then (case is_iso5 data of
              Inl e \<Rightarrow> Inl e
            | Inr found \<Rightarrow>
                if \<not> found
                then (case call k Iso5Missing Info lg of
                        Inl e \<Rightarrow> Inl e
                      | Inr lg' \<Rightarrow> Inr (take 16 data @ drop 20 data, lg'))
                else (case call k Iso5Found Info lg of
                        Inl e \<Rightarrow> Inl e
                      | Inr lg' \<Rightarrow> Inr (data, lg')))
      else if length data > 16
      then (case call k Iso5TooShort Warning lg of
              Inl e \<Rightarrow> Inl e
            | Inr lg' \<Rightarrow> Inr (data, lg'))
      else Inr (data, lg))"

text \<open>Lines 93 to 110 and the rest of the loop.\<close>

definition header_and_rest_cb ::
  "callback \<Rightarrow> (byte list \<Rightarrow> byte list \<Rightarrow> bool) \<Rightarrow> byte list \<Rightarrow> event list \<Rightarrow> byte list \<Rightarrow> log
     \<Rightarrow> exn option \<times> byte list \<times> log" where
  "header_and_rest_cb k wok data src out lg =
     (case patch_byte3_cb k data lg of
        Inl e \<Rightarrow> (Some e, out, lg)
      | Inr (d2, lg2) \<Rightarrow>
     (case check_iso5_cb k d2 lg2 of
        Inl e \<Rightarrow> (Some e, out, lg2)
      | Inr (d3, lg3) \<Rightarrow>
     (case fout_write wok out d3 of
        None \<Rightarrow> (Some OSError, out, lg3)
      | Some out' \<Rightarrow>
     (case copy_rest wok src out' of (r, out'') \<Rightarrow> (r, out'', lg3)))))"

text \<open>Lines 74 to 115.\<close>

definition decode_loop_cb ::
  "callback \<Rightarrow> (byte list \<Rightarrow> byte list \<Rightarrow> bool) \<Rightarrow> event list \<Rightarrow> log \<Rightarrow> exn option \<times> byte list \<times> log" where
  "decode_loop_cb k wok src lg =
     (case fin_read 1024 src of
        None \<Rightarrow> (Some OSError, [], lg)
      | Some (buffer, src1) \<Rightarrow>
          if buffer = [] then (None, [], lg)
          else if length buffer \<ge> 9
          then header_and_rest_cb k wok (drop 9 buffer) src1 [] lg
          else (case call k HeaderTooShort Warning lg of
                  Inl e \<Rightarrow> (Some e, [], lg)
                | Inr lg1 \<Rightarrow>
                (case fout_write wok [] buffer of
                   None \<Rightarrow> (Some OSError, [], lg1)
                 | Some out1 \<Rightarrow>
                 (case fin_read 4096 src1 of
                    None \<Rightarrow> (Some OSError, out1, lg1)
                  | Some (buffer2, src2) \<Rightarrow>
                      if buffer2 = [] then (None, out1, lg1)
                      else header_and_rest_cb k wok buffer2 src2 out1 lg1))))"

text \<open>The body of the \<^verbatim>\<open>try\<close>, lines 72 to 117.\<close>

definition decode_try_cb :: "decode_io \<Rightarrow> callback \<Rightarrow> exn option \<times> byte list \<times> log" where
  "decode_try_cb io k =
     (case call k DecodeStart Info [] of
        Inl e \<Rightarrow> (Some e, [], [])
      | Inr lg0 \<Rightarrow>
          if \<not> open_in io then (Some OSError, [], lg0)
          else if \<not> open_out io then (Some OSError, [], lg0)
          else (case decode_loop_cb k (write_ok io) (source io) lg0 of
                  (Some e, out, lg) \<Rightarrow> (Some e, out, lg)
                | (None, out, lg) \<Rightarrow>
                    if close_ok io
                    then (case call k DecodeDone Success lg of
                            Inl e \<Rightarrow> (Some e, out, lg)
                          | Inr lg' \<Rightarrow> (None, out, lg'))
                    else (Some OSError, out, lg)))"

text \<open>
  The function: what it returns, or the exception that reaches its caller, with the
  bytes written and the calls of the callback that returned.
\<close>

definition decode_bilibili_m4s_cb :: "decode_io \<Rightarrow> callback \<Rightarrow> outcome \<times> byte list \<times> log" where
  "decode_bilibili_m4s_cb io k =
     (case decode_try_cb io k of
        (None, out, lg) \<Rightarrow> (Returns True, out, lg)
      | (Some e, out, lg) \<Rightarrow>
          (case call k DecodeFailed Error lg of
             Inl e' \<Rightarrow> (Raises e', out, lg)
           | Inr lg' \<Rightarrow> (Returns False, out, lg')))"

section \<open>Facts about the repair\<close>

lemma read_sound:
  "Broken \<notin> set src \<Longrightarrow> \<exists>buffer src'. fin_read n src = Some (buffer, src') \<and> Broken \<notin> set src'"
  by (induction n src rule: fin_read.induct) auto

lemma read_keeps_sound:
  "fin_read n src = Some (buffer, src') \<Longrightarrow> Broken \<notin> set src \<Longrightarrow> Broken \<notin> set src'"
  by (induction n src rule: fin_read.induct) (auto split: if_splits)

lemma read_stream_bytes:
  "fin_read n src = Some (buffer, src') \<Longrightarrow> 0 < n \<Longrightarrow>
     stream_bytes src = (if buffer = [] then [] else buffer @ stream_bytes src')"
  by (induction n src rule: fin_read.induct) (auto split: if_splits)

lemma copy_rest_sound:
  "Broken \<notin> set src \<Longrightarrow> \<forall>out data. wok out data \<Longrightarrow>
     copy_rest wok src out = (None, out @ stream_bytes src)"
proof (induction wok src out rule: copy_rest.induct)
  case (1 wok src out)
  from "1.prems"(1) obtain buffer src' where r: "fin_read 4096 src = Some (buffer, src')"
    and s: "Broken \<notin> set src'"
    using read_sound by blast
  have sb: "stream_bytes src = (if buffer = [] then [] else buffer @ stream_bytes src')"
    using read_stream_bytes [OF r] by simp
  show ?case
  proof (cases "buffer = []")
    case True
    with r sb show ?thesis by (simp add: copy_rest.simps [of wok src out])
  next
    case False
    have w: "fout_write wok out buffer = Some (out @ buffer)"
      using "1.prems"(2) by (simp add: fout_write_def)
    have "copy_rest wok src' (out @ buffer) = (None, (out @ buffer) @ stream_bytes src')"
      by (rule "1.IH" [OF r refl False w s "1.prems"(2)])
    with r sb False w show ?thesis by (simp add: copy_rest.simps [of wok src out])
  qed
qed

lemma copy_rest_raises: "fst (copy_rest wok src out) = Some e \<Longrightarrow> e = OSError"
proof (induction wok src out rule: copy_rest.induct)
  case (1 wok src out)
  then show ?case
    by (subst (asm) copy_rest.simps) (auto split: option.splits if_splits prod.splits)
qed

lemma is_iso5_long: "20 \<le> length data \<Longrightarrow> is_iso5 data = Inr (take 4 (drop 16 data) = iso5)"
proof -
  assume l: "20 \<le> length data"
  have "take 4 (drop 16 data) = [data ! 16, data ! 17, data ! 18, data ! 19]"
    using l by (auto simp: list_eq_iff_nth_eq nth_Cons split: nat.splits)
  then show ?thesis using l by (auto simp: is_iso5_def getitem_def iso5_def)
qed

lemma header_steps:
  "\<exists>lg'. patch_byte3 cb data lg = Inr (d2, lg2) \<and> check_iso5 cb d2 lg2 = Inr (repaired_header data, lg')
     \<and> (\<forall>x \<in> set lg. x \<in> set lg')" if "d2 = (if length data > 3 then data[3 := 0x20] else data)"
    "lg2 = (if length data > 3 then lg else emit cb Byte3TooShort Warning lg)"
  using that by (auto simp: patch_byte3_def check_iso5_def setitem_def is_iso5_long repaired_header_def emit_def Let_def)


lemma header_and_rest_shape:
  "\<exists>lg'. header_and_rest cb wok data src out lg =
      (case fout_write wok out (repaired_header data) of
         None \<Rightarrow> (Some OSError, out, lg')
       | Some out' \<Rightarrow> (fst (copy_rest wok src out'), snd (copy_rest wok src out'), lg'))
     \<and> set lg \<subseteq> set lg'"
proof -
  obtain lg' where "patch_byte3 cb data lg =
      Inr (if length data > 3 then data[3 := 0x20] else data,
           if length data > 3 then lg else emit cb Byte3TooShort Warning lg)"
    and "check_iso5 cb (if length data > 3 then data[3 := 0x20] else data)
           (if length data > 3 then lg else emit cb Byte3TooShort Warning lg)
         = Inr (repaired_header data, lg')"
    and "\<forall>x \<in> set lg. x \<in> set lg'"
    using header_steps [OF refl refl] by blast
  then show ?thesis
    by (auto simp: header_and_rest_def split: option.splits prod.splits)
qed


lemma header_and_rest_raises:
  "fst (header_and_rest cb wok data src out lg) = Some e \<Longrightarrow> e = OSError"
  using header_and_rest_shape [of cb wok data src out lg]
  by (auto split: option.splits dest: copy_rest_raises)

lemma header_and_rest_sound:
  assumes "Broken \<notin> set src" and "\<forall>out data. wok out data"
  shows "\<exists>lg'. header_and_rest cb wok data src out lg =
           (None, out @ repaired_header data @ stream_bytes src, lg') \<and> set lg \<subseteq> set lg'"
  using header_and_rest_shape [of cb wok data src out lg] assms
  by (auto simp: fout_write_def copy_rest_sound)

lemma header_and_rest_only_oserror:
  "fst (header_and_rest cb wok data src out lg) = None
     \<or> fst (header_and_rest cb wok data src out lg) = Some OSError"
  using header_and_rest_raises [of cb wok data src out lg]
  by (cases "fst (header_and_rest cb wok data src out lg)") auto

lemma decode_loop_only_oserror:
  "fst (decode_loop cb wok src lg) = None \<or> fst (decode_loop cb wok src lg) = Some OSError"
proof (cases "fin_read 1024 src")
  case None
  then show ?thesis by (simp add: decode_loop_def)
next
  case (Some p)
  obtain buffer src1 where p: "p = (buffer, src1)" by (cases p)
  show ?thesis
  proof (cases "buffer = [] \<or> 9 \<le> length buffer")
    case True
    then show ?thesis
      using Some p header_and_rest_only_oserror [of cb wok "drop 9 buffer" src1 "[]" lg]
      by (auto simp: decode_loop_def)
  next
    case False
    show ?thesis
    proof (cases "fout_write wok [] buffer")
      case None
      with Some p False show ?thesis by (simp add: decode_loop_def Let_def)
    next
      case w: (Some out1)
      show ?thesis
      proof (cases "fin_read 4096 src1")
        case None
        with Some p False w show ?thesis by (simp add: decode_loop_def Let_def)
      next
        case r: (Some q)
        obtain buffer2 src2 where q: "q = (buffer2, src2)" by (cases q)
        show ?thesis
          using Some p False w r q
            header_and_rest_only_oserror [of cb wok buffer2 src2 out1 "emit cb HeaderTooShort Warning lg"]
          by (auto simp: decode_loop_def Let_def)
      qed
    qed
  qed
qed

lemma decode_try_only_oserror:
  "fst (decode_try io cb) = None \<or> fst (decode_try io cb) = Some OSError"
proof -
  obtain r out lg where l: "decode_loop cb (write_ok io) (source io) (emit cb DecodeStart Info []) = (r, out, lg)"
    by (cases "decode_loop cb (write_ok io) (source io) (emit cb DecodeStart Info [])") auto
  then have "r = None \<or> r = Some OSError"
    using decode_loop_only_oserror [of cb "write_ok io" "source io" "emit cb DecodeStart Info []"] by simp
  with l show ?thesis
    by (auto simp: decode_try_def Let_def split: if_splits)
qed

lemma decode_loop_sound:
  assumes "Broken \<notin> set src" and "\<forall>out data. wok out data"
    and "fin_read 1024 src = Some (chunk, rest)" and "fin_read 4096 rest = Some (nxt, rest')"
  shows "\<exists>lg'. decode_loop cb wok src lg =
     (None,
      (if chunk = [] then []
       else if 9 \<le> length chunk then repaired_header (drop 9 chunk) @ stream_bytes rest
       else if nxt = [] then chunk
       else chunk @ repaired_header nxt @ stream_bytes rest'), lg')
     \<and> set lg \<subseteq> set lg' \<and> (cb \<and> chunk \<noteq> [] \<and> length chunk < 9 \<longrightarrow> (HeaderTooShort, Warning) \<in> set lg')"
proof -
  have s1: "Broken \<notin> set rest" using assms(1,3) by (rule read_keeps_sound [rotated])
  have s2: "Broken \<notin> set rest'" using s1 assms(4) by (rule read_keeps_sound [rotated])
  show ?thesis
  proof (cases "chunk = [] \<or> 9 \<le> length chunk")
    case True
    then show ?thesis
      using assms(3) header_and_rest_sound [OF s1 assms(2), of cb "drop 9 chunk" "[]" lg]
      by (auto simp: decode_loop_def)
  next
    case False
    show ?thesis
    proof (cases "nxt = []")
      case True
      with False assms show ?thesis
        by (auto simp: decode_loop_def fout_write_def Let_def emit_def)
    next
      case n: False
      obtain lg' where "header_and_rest cb wok nxt rest' chunk (emit cb HeaderTooShort Warning lg) =
           (None, chunk @ repaired_header nxt @ stream_bytes rest', lg')"
        and "set (emit cb HeaderTooShort Warning lg) \<subseteq> set lg'"
        using header_and_rest_sound [OF s2 assms(2)] by blast
      with False n assms show ?thesis
        by (auto simp: decode_loop_def fout_write_def Let_def emit_def)
    qed
  qed
qed


lemma decode_sound:
  assumes "io_sound io"
    and "fin_read 1024 (source io) = Some (chunk, rest)" and "fin_read 4096 rest = Some (nxt, rest')"
  shows "returned (decode_bilibili_m4s io cb)
     \<and> written (decode_bilibili_m4s io cb) =
      (if chunk = [] then []
       else if 9 \<le> length chunk then repaired_header (drop 9 chunk) @ stream_bytes rest
       else if nxt = [] then chunk
       else chunk @ repaired_header nxt @ stream_bytes rest')
     \<and> (cb \<and> chunk \<noteq> [] \<and> length chunk < 9 \<longrightarrow>
          (HeaderTooShort, Warning) \<in> set (logged (decode_bilibili_m4s io cb)))"
proof -
  have s: "Broken \<notin> set (source io)" and w: "\<forall>out data. write_ok io out data"
    and o: "open_in io" "open_out io" "close_ok io"
    using assms(1) by (simp_all add: io_sound_def)
  obtain lg' where l: "decode_loop cb (write_ok io) (source io) (emit cb DecodeStart Info []) =
     (None,
      (if chunk = [] then []
       else if 9 \<le> length chunk then repaired_header (drop 9 chunk) @ stream_bytes rest
       else if nxt = [] then chunk
       else chunk @ repaired_header nxt @ stream_bytes rest'), lg')"
    and h: "cb \<and> chunk \<noteq> [] \<and> length chunk < 9 \<longrightarrow> (HeaderTooShort, Warning) \<in> set lg'"
    using decode_loop_sound [OF s w assms(2,3), of cb "emit cb DecodeStart Info []"] by blast
  have "decode_bilibili_m4s io cb = (True,
      (if chunk = [] then []
       else if 9 \<le> length chunk then repaired_header (drop 9 chunk) @ stream_bytes rest
       else if nxt = [] then chunk
       else chunk @ repaired_header nxt @ stream_bytes rest'), emit cb DecodeDone Success lg')"
    using o by (simp add: decode_bilibili_m4s_def decode_try_def Let_def l)
  then show ?thesis
    using h by (auto simp: returned_def written_def logged_def emit_def)
qed

lemma length_repaired_header:
  "length (repaired_header data) =
     (if 20 \<le> length data \<and> take 4 (drop 16 data) \<noteq> iso5 then length data - 4 else length data)"
proof -
  have "take 4 (drop 16 (data[3 := 0x20])) = take 4 (drop 16 data)"
    by simp
  then show ?thesis
    by (auto simp: repaired_header_def Let_def)
qed


lemma copy_rest_end: "copy_rest wok [] out = (None, out)"
  by (simp add: copy_rest.simps [of wok "[]" out])

lemma returning_sink_result:
  "(fst (decode_try io cb) = None \<or> fst (decode_try io cb) = Some OSError)
   \<and> (returned (decode_bilibili_m4s io cb) \<longleftrightarrow> fst (decode_try io cb) = None)
   \<and> (io_sound io \<longrightarrow> returned (decode_bilibili_m4s io cb))"
proof -
  have a: "fst (decode_try io cb) = None \<or> fst (decode_try io cb) = Some OSError"
    by (rule decode_try_only_oserror)
  have b: "returned (decode_bilibili_m4s io cb) \<longleftrightarrow> fst (decode_try io cb) = None"
    by (cases "decode_try io cb") (auto simp: decode_bilibili_m4s_def returned_def split: option.splits)
  have c: "returned (decode_bilibili_m4s io cb)" if s: "io_sound io"
  proof -
    from s have "Broken \<notin> set (source io)" by (simp add: io_sound_def)
    then obtain chunk rest where r: "fin_read 1024 (source io) = Some (chunk, rest)"
      and "Broken \<notin> set rest"
      using read_sound by blast
    then obtain nxt rest' where "fin_read 4096 rest = Some (nxt, rest')"
      using read_sound by blast
    with s r show ?thesis using decode_sound by blast
  qed
  from a b c show ?thesis by blast
qed

lemma call_returns:
  "callback_returns k \<Longrightarrow> call k m l lg = Inr (emit (supplied k) m l lg)"
  by (cases k) (simp_all add: call_def emit_def callback_returns_def supplied_def)

lemma patch_byte3_cb_returns:
  "callback_returns k \<Longrightarrow> patch_byte3_cb k data lg = patch_byte3 (supplied k) data lg"
  by (simp add: patch_byte3_cb_def patch_byte3_def call_returns)

lemma check_iso5_cb_returns:
  "callback_returns k \<Longrightarrow> check_iso5_cb k data lg = check_iso5 (supplied k) data lg"
  by (simp add: check_iso5_cb_def check_iso5_def call_returns split: sum.splits)

lemma header_and_rest_cb_returns:
  "callback_returns k \<Longrightarrow>
     header_and_rest_cb k wok data src out lg = header_and_rest (supplied k) wok data src out lg"
  by (simp add: header_and_rest_cb_def header_and_rest_def patch_byte3_cb_returns
      check_iso5_cb_returns split: sum.splits prod.splits)

lemma decode_loop_cb_returns:
  "callback_returns k \<Longrightarrow> decode_loop_cb k wok src lg = decode_loop (supplied k) wok src lg"
  by (simp add: decode_loop_cb_def decode_loop_def header_and_rest_cb_returns call_returns Let_def
      split: option.splits)

lemma decode_try_cb_returns:
  "callback_returns k \<Longrightarrow> decode_try_cb io k = decode_try io (supplied k)"
  by (simp add: decode_try_cb_def decode_try_def decode_loop_cb_returns call_returns Let_def
      split: prod.splits option.splits)

lemma decode_cb_returns:
  "callback_returns k \<Longrightarrow>
     decode_bilibili_m4s_cb io k =
       (Returns (returned (decode_bilibili_m4s io (supplied k))),
        written (decode_bilibili_m4s io (supplied k)),
        logged (decode_bilibili_m4s io (supplied k)))"
  by (simp add: decode_bilibili_m4s_cb_def decode_bilibili_m4s_def decode_try_cb_returns
      call_returns returned_def written_def logged_def split: prod.splits option.splits)

section \<open>Claims about the repair\<close>

text \<open>
  C1, as stated, at a file of 20 zero bytes: the first chunk has 20 bytes, the four
  bytes at offsets 16 to 19 after the first 9 are dropped are not the brand (there are
  only 11 bytes left), and the output has 11 bytes, which is the input length minus 9
  and not the input length minus 13.
\<close>

theorem repair_length_counterexample:
  "fin_read 1024 (source (regular_file zeros20)) = Some (zeros20, [])
   \<and> 20 \<le> length zeros20
   \<and> take 4 (drop 16 (drop 9 zeros20)) \<noteq> iso5
   \<and> length (stream_bytes (source (regular_file zeros20))) = 20
   \<and> length (written (decode_bilibili_m4s (regular_file zeros20) True)) = 11
   \<and> length (written (decode_bilibili_m4s (regular_file zeros20) True))
       \<noteq> length (stream_bytes (source (regular_file zeros20))) - 13"
  by (simp add: regular_file_def zeros20_def iso5_def decode_bilibili_m4s_def decode_try_def
      decode_loop_def header_and_rest_def patch_byte3_def check_iso5_def setitem_def
      fout_write_def copy_rest_end emit_def written_def Let_def)

text \<open>
  C1, amended. For every input that is read and written without an I/O error and whose
  first read chunk has at least 20 bytes: the call returns \<^verbatim>\<open>True\<close>; if the chunk has
  at least 29 bytes (so that 20 are left once the first 9 are dropped) and the bytes at
  offsets 16 to 19 of what is left are not \<^verbatim>\<open>iso5\<close>, the output has the length of the
  input minus 13; in every other case (the brand is there, or fewer than 20 bytes are
  left) it has the length of the input minus 9.
\<close>

theorem repair_length:
  assumes "io_sound io" and "fin_read 1024 (source io) = Some (chunk, rest)"
    and "20 \<le> length chunk"
  shows "returned (decode_bilibili_m4s io cb)
    \<and> length (written (decode_bilibili_m4s io cb)) =
        (if 29 \<le> length chunk \<and> take 4 (drop 16 (drop 9 chunk)) \<noteq> iso5
         then length (stream_bytes (source io)) - 13
         else length (stream_bytes (source io)) - 9)"
proof -
  have s: "Broken \<notin> set (source io)" using assms(1) by (simp add: io_sound_def)
  then have "Broken \<notin> set rest" using assms(2) read_keeps_sound by blast
  then obtain nxt rest' where n: "fin_read 4096 rest = Some (nxt, rest')"
    using read_sound by blast
  have sb: "stream_bytes (source io) = chunk @ stream_bytes rest"
    using read_stream_bytes [OF assms(2)] assms(3) by auto
  have "returned (decode_bilibili_m4s io cb)
     \<and> written (decode_bilibili_m4s io cb) = repaired_header (drop 9 chunk) @ stream_bytes rest"
    using decode_sound [OF assms(1,2) n, of cb] assms(3) by auto
  then show ?thesis
    using assms(3) by (auto simp: sb length_repaired_header)
qed

theorem repair_length_witness:
  "returned (decode_bilibili_m4s (regular_file (zeros20 @ zeros20)) True)
   \<and> length (written (decode_bilibili_m4s (regular_file (zeros20 @ zeros20)) True)) = 27"
  using repair_length [of "regular_file (zeros20 @ zeros20)" "zeros20 @ zeros20" "[]" True]
  by (simp add: io_sound_def regular_file_def zeros20_def iso5_def)


text \<open>
  C2, as stated, at a file that has 5 bytes at the first read and 24 more at the second:
  the first chunk is shorter than 9 bytes, and the bytes after it are not passed through.
  The second chunk has its byte at offset 3 set to \<open>0x20\<close> and its bytes at offsets 16
  to 19 removed, so the output is not the input.
\<close>

theorem short_header_counterexample:
  "fin_read 1024 (source growing_file) = Some ([1,2,3,4,5], [Chunk (zeros20 @ [7,7,7,7])])
   \<and> stream_bytes (source growing_file) = [1,2,3,4,5] @ zeros20 @ [7,7,7,7]
   \<and> written (decode_bilibili_m4s growing_file True)
       = [1,2,3,4,5] @ [0,0,0,0x20, 0,0,0,0, 0,0,0,0, 0,0,0,0, 7,7,7,7]
   \<and> written (decode_bilibili_m4s growing_file True) \<noteq> stream_bytes (source growing_file)"
  by (simp add: growing_file_def zeros20_def iso5_def decode_bilibili_m4s_def decode_try_def
      decode_loop_def header_and_rest_def patch_byte3_def check_iso5_def setitem_def
      getitem_def is_iso5_def fout_write_def copy_rest_end emit_def written_def Let_def)

text \<open>
  C2, amended. For every input that is read and written without an I/O error and whose
  first read chunk has 1 to 8 bytes: the call returns \<^verbatim>\<open>True\<close>, the chunk is written as
  it is, and a warning is logged when there is a log callback. If the next read returns
  nothing, nothing more is written and the output is the input. Otherwise the two header
  steps are applied to that second chunk (offset 3 set to \<open>0x20\<close>, offsets 16 to 19
  removed unless they hold the brand), and the bytes after the second chunk are passed
  through as they are.
\<close>

theorem short_header:
  assumes "io_sound io" and "fin_read 1024 (source io) = Some (chunk, rest)"
    and "chunk \<noteq> []" and "length chunk < 9"
    and "fin_read 4096 rest = Some (nxt, rest')"
  shows "returned (decode_bilibili_m4s io cb)
    \<and> (cb \<longrightarrow> (HeaderTooShort, Warning) \<in> set (logged (decode_bilibili_m4s io cb)))
    \<and> written (decode_bilibili_m4s io cb) =
        chunk @ (if nxt = [] then [] else repaired_header nxt @ stream_bytes rest')
    \<and> (nxt = [] \<longrightarrow> written (decode_bilibili_m4s io cb) = stream_bytes (source io))"
proof -
  have sb: "stream_bytes (source io) = chunk @ stream_bytes rest"
    using read_stream_bytes [OF assms(2)] assms(3) by simp
  have "nxt = [] \<Longrightarrow> stream_bytes rest = []"
    using read_stream_bytes [OF assms(5)] by simp
  then show ?thesis
    using decode_sound [OF assms(1,2,5), of cb] assms(3,4) by (auto simp: sb)
qed

theorem short_header_witness:
  "returned (decode_bilibili_m4s growing_file True)
   \<and> (HeaderTooShort, Warning) \<in> set (logged (decode_bilibili_m4s growing_file True))
   \<and> written (decode_bilibili_m4s growing_file True)
       = [1,2,3,4,5] @ repaired_header (zeros20 @ [7,7,7,7])"
  using short_header [of growing_file "[1,2,3,4,5]" "[Chunk (zeros20 @ [7,7,7,7])]"
      "zeros20 @ [7,7,7,7]" "[]" True]
  by (simp add: io_sound_def growing_file_def zeros20_def)

text \<open>
  C8, as stated, at a file of 5 bytes that is read and written without an I/O error.
  With a callback that raises at every call, the call of line 72 raises, the handler's
  call of line 119 raises too, and that exception reaches the caller: the function
  returns no boolean. With a callback that raises only at the warning for the short
  header, the function returns \<^verbatim>\<open>False\<close> although no file operation failed.
\<close>

theorem repair_never_raises_counterexample:
  "fst (decode_bilibili_m4s_cb (regular_file [1,2,3,4,5]) (Some (\<lambda>lg m l. False)))
     = Raises CallbackError
   \<and> io_sound (regular_file [1,2,3,4,5])
   \<and> fst (decode_bilibili_m4s_cb (regular_file [1,2,3,4,5]) (Some (\<lambda>lg m l. m \<noteq> HeaderTooShort)))
     = Returns False"
  by (simp add: decode_bilibili_m4s_cb_def decode_try_cb_def decode_loop_cb_def call_def
      regular_file_def io_sound_def)

text \<open>
  C8, amended. For every environment, so for first chunks of every length, and every
  callback: the function returns \<^verbatim>\<open>True\<close> or \<^verbatim>\<open>False\<close>, or an exception of the callback
  reaches its caller, and no other exception does. With no callback, or one that returns
  from every call: the function raises nothing and returns a boolean; the body of the
  \<^verbatim>\<open>try\<close> ends normally or with an \<^verbatim>\<open>OSError\<close> of a file operation, never with an
  \<^verbatim>\<open>IndexError\<close> of the header steps; the result is \<^verbatim>\<open>True\<close> exactly when the body
  ended normally; and when every file operation succeeds the result is \<^verbatim>\<open>True\<close>,
  however short the header.
\<close>

theorem repair_never_raises:
  "(fst (decode_bilibili_m4s_cb io k) = Returns True
      \<or> fst (decode_bilibili_m4s_cb io k) = Returns False
      \<or> fst (decode_bilibili_m4s_cb io k) = Raises CallbackError)
   \<and> (callback_returns k \<longrightarrow>
        (fst (decode_try_cb io k) = None \<or> fst (decode_try_cb io k) = Some OSError)
        \<and> fst (decode_bilibili_m4s_cb io k) = Returns (fst (decode_try_cb io k) = None))
   \<and> (callback_returns k \<and> io_sound io \<longrightarrow> fst (decode_bilibili_m4s_cb io k) = Returns True)"
proof -
  have a: "fst (decode_bilibili_m4s_cb io k) = Returns True
      \<or> fst (decode_bilibili_m4s_cb io k) = Returns False
      \<or> fst (decode_bilibili_m4s_cb io k) = Raises CallbackError"
    by (auto simp: decode_bilibili_m4s_cb_def call_def split: prod.splits option.splits if_splits)
  have b: "(fst (decode_try_cb io k) = None \<or> fst (decode_try_cb io k) = Some OSError)
        \<and> fst (decode_bilibili_m4s_cb io k) = Returns (fst (decode_try_cb io k) = None)"
    if r: "callback_returns k"
    using returning_sink_result [of io "supplied k"]
    by (simp add: decode_try_cb_returns [OF r] decode_cb_returns [OF r])
  have c: "fst (decode_bilibili_m4s_cb io k) = Returns True"
    if r: "callback_returns k" and s: "io_sound io"
    using returning_sink_result [of io "supplied k"] s
    by (auto simp: decode_cb_returns [OF r])
  from a b c show ?thesis by blast
qed

theorem repair_never_raises_witness:
  "fst (decode_bilibili_m4s_cb (regular_file [1,2,3,4,5]) (Some (\<lambda>lg m l. True))) = Returns True
   \<and> fst (decode_try_cb (regular_file [1,2,3,4,5]) (Some (\<lambda>lg m l. True))) = None"
proof -
  have "io_sound (regular_file [1,2,3,4,5])"
    by (simp add: io_sound_def regular_file_def)
  moreover have "callback_returns (Some (\<lambda>lg m l. True))"
    by (simp add: callback_returns_def)
  ultimately show ?thesis
    using repair_never_raises [of "regular_file [1,2,3,4,5]" "Some (\<lambda>lg m l. True)"] by auto
qed

text \<open>
  C10. When both files open and close and the first read returns no byte, the function
  returns \<^verbatim>\<open>True\<close>, writes nothing, and logs the start and the end only: no warning
  and none of the messages of the header steps.
\<close>

theorem empty_input:
  assumes "open_in io" and "open_out io" and "close_ok io"
    and "fin_read 1024 (source io) = Some ([], rest)"
  shows "decode_bilibili_m4s io cb =
      (True, [], if cb then [(DecodeStart, Info), (DecodeDone, Success)] else [])
    \<and> Warning \<notin> snd ` set (logged (decode_bilibili_m4s io cb))"
  using assms
  by (simp add: decode_bilibili_m4s_def decode_try_def decode_loop_def emit_def logged_def Let_def)

theorem empty_input_witness:
  "decode_bilibili_m4s (regular_file []) True = (True, [], [(DecodeStart, Info), (DecodeDone, Success)])
   \<and> Warning \<notin> snd ` set (logged (decode_bilibili_m4s (regular_file []) True))"
  using empty_input [of "regular_file []" "[]" True]
  by (simp add: regular_file_def logged_def)

section \<open>Cleaning a title: \<^verbatim>\<open>sanitize_filename\<close>\<close>









subsection \<open>Facts about the cleaning\<close>













subsection \<open>The claim about the cleaning\<close>




section \<open>Recognising a folder: \<^verbatim>\<open>detect_folder_structure\<close>\<close>

subsection \<open>The file system\<close>











subsection \<open>The detector\<close>





subsection \<open>Folders used as examples\<close>





subsection \<open>Facts about the detector\<close>







subsection \<open>Claims about the detector\<close>





section \<open>Choosing the two tracks\<close>







subsection \<open>Facts about the choice\<close>







subsection \<open>The claim about the choice\<close>



section \<open>The title of the output file\<close>

subsection \<open>What \<^verbatim>\<open>json.load\<close> returns\<close>








subsection \<open>The probe\<close>





subsection \<open>The fallback\<close>



subsection \<open>Facts about the title\<close>







subsection \<open>The claim about the title\<close>




section \<open>Merging a folder: \<^verbatim>\<open>process_mobile_m4s_files\<close> and \<^verbatim>\<open>process_pc_m4s_files\<close>\<close>

subsection \<open>The world around the two functions\<close>




subsection \<open>\<^verbatim>\<open>process_pc_m4s_files\<close>\<close>






subsection \<open>\<^verbatim>\<open>process_mobile_m4s_files\<close>\<close>



subsection \<open>A folder whose merges fail\<close>



subsection \<open>What the claim speaks of\<close>




subsection \<open>Facts about the merge\<close>









subsection \<open>The claim about the merge\<close>





end
